theory Spec2Isabelle
  imports Main
begin

section \<open>JavaScript strings\<close>

text \<open>
  Strings are lists of 8-bit characters. \<open>toLowerCase\<close> is modelled on the ASCII
  letters only: an upper-case letter (codes 65 to 90) gets bit 5 set, which adds 32.
  \<open>startsWith\<close>, \<open>endsWith\<close> and \<open>includes\<close> (here \<open>includes_str\<close>) are the
  usual prefix, suffix and contiguous-substring tests.
\<close>

definition lowerChar :: "char \<Rightarrow> char" where
  "lowerChar c =
     (if 65 \<le> (of_char c :: nat) \<and> (of_char c :: nat) \<le> 90
      then (case c of Char b0 b1 b2 b3 b4 b5 b6 b7 \<Rightarrow> Char b0 b1 b2 b3 b4 True b6 b7)
      else c)"

definition toLowerCase :: "string \<Rightarrow> string" where
  "toLowerCase s = map lowerChar s"

definition startsWith :: "string \<Rightarrow> string \<Rightarrow> bool" where
  "startsWith s p = (take (length p) s = p)"

definition endsWith :: "string \<Rightarrow> string \<Rightarrow> bool" where
  "endsWith s p = (length p \<le> length s \<and> drop (length s - length p) s = p)"

fun includes_str :: "string \<Rightarrow> string \<Rightarrow> bool" where
  "includes_str [] p = (p = [])"
| "includes_str (c # cs) p = (startsWith (c # cs) p \<or> includes_str cs p)"

text \<open>
  JavaScript truthiness of a value that is either \<open>undefined\<close> or a string: only a
  non-empty string is truthy.
\<close>

definition truthy :: "string option \<Rightarrow> bool" where
  "truthy v = (case v of None \<Rightarrow> False | Some s \<Rightarrow> s \<noteq> [])"

section \<open>The remote storage service\<close>

text \<open>
  The handlers talk to the Drive service through \<open>drive.files.list\<close>,
  \<open>drive.files.get\<close>, \<open>drive.files.create\<close> and \<open>drive.files.update\<close>. The
  service is modelled as a store of entries in listing order. Every call is logged
  together with its outcome; \<open>script\<close> holds the outcomes of the calls still to come
  (\<open>Some m\<close>: the service rejects the call with message \<open>m\<close>), and an exhausted script
  means that the service accepts.

  The query string \<open>q\<close> of a listing is a conjunction; it is kept as the list of its
  conditions: \<open>'<id>' in parents\<close>, \<open>mimeType = '<type>'\<close>, \<open>trashed = false\<close>. A
  listing returns the entries that meet every condition of the query, so a query
  without \<open>trashed = false\<close> returns trashed entries too. An answer always carries the
  \<open>files\<close> array, with the fields that the \<open>fields\<close> mask asks for.
\<close>

datatype cond = InParents string | MimeTypeIs string | NotTrashed

datatype field = FId | FName | FMimeType

record list_params =
  q :: "cond list"
  fieldsMask :: "field list"
  pageSize :: "nat option"

text \<open>A file resource as it arrives in a listing: fields outside the mask are undefined.\<close>

record dfile =
  fid :: string
  fname :: "string option"
  mimeType :: "string option"

text \<open>
  The \<open>data\<close> of a media download: a string, or a value that is not a string, carried
  here by its \<open>JSON.stringify\<close> rendering.
\<close>

datatype payload = TextData string | JsonData string

record create_params =
  cname :: "string option"
  cmimeType :: string
  cparents :: "string list"
  cmedia :: "payload option"

datatype request =
    FilesList list_params
  | FilesGet string
  | FilesCreate create_params
  | FilesUpdate string bool

record entry =
  eid :: string
  ename :: string
  emimeType :: string
  eparents :: "string list"
  etrashed :: bool
  ebody :: payload

record remote =
  entries :: "entry list"
  script :: "string option list"
  calls :: "(request \<times> string option) list"

datatype js_error = UpstreamError string | TypeError string

fun message :: "js_error \<Rightarrow> string" where
  "message (UpstreamError m) = m"
| "message (TypeError m) = m"

type_synonym 'a io = "remote \<Rightarrow> (js_error + 'a) \<times> remote"

text \<open>
  One round trip. The request is logged with its outcome: the rejection the script
  dictates, or else what the operation itself does on the store.
\<close>

definition serve :: "request \<Rightarrow> (entry list \<Rightarrow> string + 'a \<times> entry list) \<Rightarrow> 'a io" where
  "serve rq act r =
     (let r' = r\<lparr>script := drop 1 (script r)\<rparr> in
      case (case script r of Some m # _ \<Rightarrow> Inl m | _ \<Rightarrow> act (entries r)) of
        Inl m \<Rightarrow> (Inl (UpstreamError m), r'\<lparr>calls := calls r @ [(rq, Some m)]\<rparr>)
      | Inr (x, es) \<Rightarrow> (Inr x, r'\<lparr>entries := es, calls := calls r @ [(rq, None)]\<rparr>))"

fun matches :: "entry \<Rightarrow> cond \<Rightarrow> bool" where
  "matches e (InParents p) = (p \<in> set (eparents e))"
| "matches e (MimeTypeIs m) = (emimeType e = m)"
| "matches e NotTrashed = (\<not> etrashed e)"

definition project :: "field list \<Rightarrow> entry \<Rightarrow> dfile" where
  "project fs e =
     \<lparr>fid = eid e,
      fname = (if FName \<in> set fs then Some (ename e) else None),
      mimeType = (if FMimeType \<in> set fs then Some (emimeType e) else None)\<rparr>"

text \<open>Without \<open>pageSize\<close> the service returns at most 100 files; only one page is ever read.\<close>

definition page :: "nat option \<Rightarrow> nat" where
  "page ps = (case ps of None \<Rightarrow> 100 | Some n \<Rightarrow> n)"

definition select :: "list_params \<Rightarrow> entry list \<Rightarrow> dfile list" where
  "select p es =
     take (page (pageSize p))
       (map (project (fieldsMask p)) (filter (\<lambda>e. list_all (matches e) (q p)) es))"

definition files_list :: "list_params \<Rightarrow> dfile list io" where
  "files_list p = serve (FilesList p) (\<lambda>es. Inr (select p es, es))"

fun lookup :: "string \<Rightarrow> entry list \<Rightarrow> entry option" where
  "lookup i [] = None"
| "lookup i (e # es) = (if eid e = i then Some e else lookup i es)"

definition files_get :: "string \<Rightarrow> payload io" where
  "files_get i =
     serve (FilesGet i)
       (\<lambda>es. case lookup i es of None \<Rightarrow> Inl ''File not found'' | Some e \<Rightarrow> Inr (ebody e, es))"

text \<open>\<open>files.update\<close> with \<open>requestBody: {trashed: t}\<close>: a metadata patch; nothing is removed.\<close>

definition files_update :: "string \<Rightarrow> bool \<Rightarrow> unit io" where
  "files_update i t =
     serve (FilesUpdate i t)
       (\<lambda>es. case lookup i es of
          None \<Rightarrow> Inl ''File not found''
        | Some _ \<Rightarrow> Inr ((), map (\<lambda>e. if eid e = i then e\<lparr>etrashed := t\<rparr> else e) es))"

text \<open>
  \<open>files.create\<close> appends an entry under an identifier chosen by the service (here
  derived from the size of the store) and answers with that identifier.
\<close>

definition fresh_id :: "entry list \<Rightarrow> string" where
  "fresh_id es = CHR ''f'' # replicate (length es) CHR ''i''"

definition files_create :: "create_params \<Rightarrow> string io" where
  "files_create c =
     serve (FilesCreate c)
       (\<lambda>es. let i = fresh_id es in
          Inr (i, es @ [\<lparr>eid = i,
                          ename = (case cname c of None \<Rightarrow> ''Untitled'' | Some n \<Rightarrow> n),
                          emimeType = cmimeType c, eparents = cparents c, etrashed = False,
                          ebody = (case cmedia c of None \<Rightarrow> TextData [] | Some b \<Rightarrow> b)\<rparr>]))"

text \<open>\<open>await\<close>: a rejected call throws, an accepted one hands its value on.\<close>

definition await :: "'a io \<Rightarrow> ('a \<Rightarrow> 'b io) \<Rightarrow> 'b io" where
  "await m k r = (case m r of (Inl e, r') \<Rightarrow> (Inl e, r') | (Inr x, r') \<Rightarrow> k x r')"

definition return :: "'a \<Rightarrow> 'a io" where
  "return x r = (Inr x, r)"

definition throw :: "js_error \<Rightarrow> 'a io" where
  "throw e r = (Inl e, r)"

section \<open>HTTP replies\<close>

text \<open>
  \<open>res.status(c).json(...)\<close> and \<open>res.status(c).send(text)\<close>. A JSON body is the list
  of records, an error object \<open>{error, details}\<close>, or a success object with an optional
  \<open>folderId\<close>.
\<close>

datatype 'a body =
    Records 'a
  | Failure string "string option"
  | Success "string option"
  | Text string

datatype 'a reply = Reply nat "'a body"

definition folderMime :: string where
  "folderMime = ''application/vnd.google-apps.folder''"

section \<open>The session server: upload, list and delete behind \<open>ensureAuth\<close>\<close>

text \<open>
  The server of \<open>unnamed/part_001\<close>. The folder identifier \<open>CARPARTS_FOLDER_ID\<close> is the
  parameter \<open>root\<close> of the handlers.

  \<open>ensureAuth\<close>: a request without tokens in its session is answered 401.
\<close>

definition ensureAuth ::
  "string option \<Rightarrow> (remote \<Rightarrow> 'a reply \<times> remote) \<Rightarrow> remote \<Rightarrow> 'a reply \<times> remote" where
  "ensureAuth tokens next r =
     (if tokens \<noteq> None then next r else (Reply 401 (Failure ''Not authenticated'' None), r))"

subsection \<open>Listing\<close>

record part =
  part_id :: string
  part_name :: "string option"
  imageUrl :: "string option"
  details :: string

definition isImage :: "dfile \<Rightarrow> bool" where
  "isImage file = (case mimeType file of None \<Rightarrow> False | Some m \<Rightarrow> m \<noteq> [] \<and> startsWith m ''image/'')"

definition namedDetails :: "dfile \<Rightarrow> bool" where
  "namedDetails file =
     (case fname file of None \<Rightarrow> False | Some n \<Rightarrow> n \<noteq> [] \<and> includes_str (toLowerCase n) ''details'')"

definition isPlainText :: "dfile \<Rightarrow> bool" where
  "isPlainText file = (mimeType file = Some ''text/plain'')"

text \<open>
  The classification loop over the children of one folder; the pair is
  \<open>(imageFile, detailsFile)\<close>, both \<open>null\<close> at the start.
\<close>

fun classify :: "dfile list \<Rightarrow> dfile option \<times> dfile option \<Rightarrow> dfile option \<times> dfile option" where
  "classify [] acc = acc"
| "classify (file # rest) (imageFile, detailsFile) =
     (if isImage file then classify rest (Some file, detailsFile)
      else if namedDetails file then classify rest (imageFile, Some file)
      else if isPlainText file \<and> detailsFile = None then classify rest (imageFile, Some file)
      else classify rest (imageFile, detailsFile))"

definition asText :: "payload \<Rightarrow> string" where
  "asText d = (case d of TextData s \<Rightarrow> s | JsonData s \<Rightarrow> s)"

definition viewUrl :: "string \<Rightarrow> string" where
  "viewUrl i = ''https://drive.google.com/uc?id='' @ i"

definition readDetails :: "dfile option \<Rightarrow> string io" where
  "readDetails detailsFile =
     (case detailsFile of
        None \<Rightarrow> return []
      | Some d \<Rightarrow> await (files_get (fid d)) (\<lambda>txt. return (asText txt)))"

definition childrenQuery :: "string \<Rightarrow> list_params" where
  "childrenQuery i =
     \<lparr>q = [InParents i, NotTrashed], fieldsMask = [FId, FName, FMimeType], pageSize = Some 50\<rparr>"

definition foldersQuery :: "string \<Rightarrow> list_params" where
  "foldersQuery root =
     \<lparr>q = [InParents root, MimeTypeIs folderMime, NotTrashed], fieldsMask = [FId, FName],
      pageSize = Some 1000\<rparr>"

text \<open>The body of the loop over the folders: one record per folder.\<close>

definition partOf :: "dfile \<Rightarrow> part io" where
  "partOf f =
     await (files_list (childrenQuery (fid f))) (\<lambda>files.
       case classify files (None, None) of (imageFile, detailsFile) \<Rightarrow>
         await (readDetails detailsFile) (\<lambda>detailsText.
           return \<lparr>part_id = fid f, part_name = fname f,
                   imageUrl = map_option (\<lambda>i. viewUrl (fid i)) imageFile,
                   details = detailsText\<rparr>))"

fun eachFolder :: "dfile list \<Rightarrow> part list \<Rightarrow> part list io" where
  "eachFolder [] parts = return parts"
| "eachFolder (f # folders) parts = await (partOf f) (\<lambda>p. eachFolder folders (parts @ [p]))"

definition collectParts :: "string \<Rightarrow> part list io" where
  "collectParts root = await (files_list (foldersQuery root)) (\<lambda>folders. eachFolder folders [])"

text \<open>The handler of \<open>GET /api/parts\<close>: the \<open>try\<close> block, and the \<open>catch\<close> that answers 500.\<close>

definition partsHandler :: "string \<Rightarrow> remote \<Rightarrow> part list reply \<times> remote" where
  "partsHandler root r =
     (case collectParts root r of
        (Inr parts, r') \<Rightarrow> (Reply 200 (Records parts), r')
      | (Inl err, r') \<Rightarrow> (Reply 500 (Failure ''Failed to list parts'' (Some (message err))), r'))"

definition getParts :: "string \<Rightarrow> string option \<Rightarrow> remote \<Rightarrow> part list reply \<times> remote" where
  "getParts root tokens = ensureAuth tokens (partsHandler root)"

subsection \<open>Upload\<close>

text \<open>The uploaded file as the multipart parser hands it over (\<open>req.file\<close>).\<close>

record upload_file =
  originalname :: string
  mimetype :: "string option"
  buffer :: string

text \<open>Steps 2 and 3 of the upload: the image when a file came, \<open>details.txt\<close> when details came.\<close>

definition uploadImage :: "string \<Rightarrow> upload_file option \<Rightarrow> unit io" where
  "uploadImage folderId file =
     (case file of
        None \<Rightarrow> return ()
      | Some fl \<Rightarrow>
          await (files_create
                   \<lparr>cname = Some (originalname fl),
                    cmimeType = (case mimetype fl of
                                   None \<Rightarrow> ''image/jpeg''
                                 | Some m \<Rightarrow> if m \<noteq> [] then m else ''image/jpeg''),
                    cparents = [folderId],
                    cmedia = Some (TextData (buffer fl))\<rparr>)
            (\<lambda>_. return ()))"

definition uploadDetails :: "string \<Rightarrow> string option \<Rightarrow> unit io" where
  "uploadDetails folderId dtl =
     (case dtl of
        None \<Rightarrow> return ()
      | Some d \<Rightarrow>
          if d \<noteq> [] then
            await (files_create
                     \<lparr>cname = Some ''details.txt'', cmimeType = ''text/plain'',
                      cparents = [folderId], cmedia = Some (TextData d)\<rparr>)
              (\<lambda>_. return ())
          else return ())"

definition createPart :: "string \<Rightarrow> string option \<Rightarrow> string option \<Rightarrow> upload_file option \<Rightarrow> string io" where
  "createPart root partName dtl file =
     await (files_create
              \<lparr>cname = partName, cmimeType = folderMime, cparents = [root], cmedia = None\<rparr>)
       (\<lambda>folderId.
          await (uploadImage folderId file) (\<lambda>_.
            await (uploadDetails folderId dtl) (\<lambda>_. return folderId)))"

definition uploadHandler ::
  "string \<Rightarrow> string option \<Rightarrow> string option \<Rightarrow> upload_file option \<Rightarrow> remote \<Rightarrow> unit reply \<times> remote" where
  "uploadHandler root partName dtl file r =
     (if \<not> truthy partName then (Reply 400 (Failure ''partName required'' None), r)
      else
        (case createPart root partName dtl file r of
           (Inr folderId, r') \<Rightarrow> (Reply 200 (Success (Some folderId)), r')
         | (Inl err, r') \<Rightarrow> (Reply 500 (Failure ''Upload failed'' (Some (message err))), r')))"

definition postUpload ::
  "string \<Rightarrow> string option \<Rightarrow> string option \<Rightarrow> string option \<Rightarrow> upload_file option \<Rightarrow>
     remote \<Rightarrow> unit reply \<times> remote" where
  "postUpload root tokens partName dtl file = ensureAuth tokens (uploadHandler root partName dtl file)"

subsection \<open>Delete\<close>

definition deleteHandler :: "string option \<Rightarrow> remote \<Rightarrow> unit reply \<times> remote" where
  "deleteHandler folderId r =
     (case folderId of
        None \<Rightarrow> (Reply 400 (Failure ''folderId required'' None), r)
      | Some i \<Rightarrow>
          if i = [] then (Reply 400 (Failure ''folderId required'' None), r)
          else
            (case files_update i True r of
               (Inr _, r') \<Rightarrow> (Reply 200 (Success None), r')
             | (Inl err, r') \<Rightarrow> (Reply 500 (Failure ''Failed to delete'' (Some (message err))), r')))"

definition postDelete :: "string option \<Rightarrow> string option \<Rightarrow> remote \<Rightarrow> unit reply \<times> remote" where
  "postDelete tokens folderId = ensureAuth tokens (deleteHandler folderId)"

section \<open>The read-only server with \<open>listParts\<close>\<close>

text \<open>
  The server of \<open>unnamed/part_000\<close>. Its handler has no \<open>catch\<close>: when \<open>listParts\<close>
  rejects, the handler sends nothing and the rejection leaves it unhandled.
\<close>

datatype 'a outcome = Sent "'a reply" | Unhandled js_error

record part_ro =
  name_ro :: "string option"
  image_ro :: string
  details_ro :: payload

text \<open>
  The loop over the children; the pair is \<open>(imageUrl, detailsText)\<close>. Calling
  \<open>startsWith\<close> on an undefined \<open>mimeType\<close> is a \<open>TypeError\<close>.
\<close>

fun scanFiles :: "dfile list \<Rightarrow> string \<times> payload \<Rightarrow> (string \<times> payload) io" where
  "scanFiles [] acc = return acc"
| "scanFiles (file # rest) (imageUrl', detailsText) =
     (case mimeType file of
        None \<Rightarrow> throw (TypeError ''Cannot read properties of undefined (reading 'startsWith')'')
      | Some m \<Rightarrow>
          if startsWith m ''image/'' then scanFiles rest (viewUrl (fid file), detailsText)
          else if m = ''text/plain'' then
            await (files_get (fid file)) (\<lambda>txt. scanFiles rest (imageUrl', txt))
          else scanFiles rest (imageUrl', detailsText))"

definition childrenQuery_ro :: "string \<Rightarrow> list_params" where
  "childrenQuery_ro i =
     \<lparr>q = [InParents i], fieldsMask = [FId, FName, FMimeType], pageSize = None\<rparr>"

definition foldersQuery_ro :: "string \<Rightarrow> list_params" where
  "foldersQuery_ro root =
     \<lparr>q = [InParents root, MimeTypeIs folderMime], fieldsMask = [FId, FName], pageSize = None\<rparr>"

definition partOf_ro :: "dfile \<Rightarrow> part_ro io" where
  "partOf_ro folder =
     await (files_list (childrenQuery_ro (fid folder))) (\<lambda>files.
       await (scanFiles files ([], TextData [])) (\<lambda>(imageUrl', detailsText).
         return \<lparr>name_ro = fname folder, image_ro = imageUrl', details_ro = detailsText\<rparr>))"

fun eachFolder_ro :: "dfile list \<Rightarrow> part_ro list \<Rightarrow> part_ro list io" where
  "eachFolder_ro [] parts = return parts"
| "eachFolder_ro (folder # folders) parts =
     await (partOf_ro folder) (\<lambda>p. eachFolder_ro folders (parts @ [p]))"

definition listParts :: "string \<Rightarrow> part_ro list io" where
  "listParts root =
     await (files_list (foldersQuery_ro root)) (\<lambda>folders. eachFolder_ro folders [])"

definition getParts_ro :: "string \<Rightarrow> remote \<Rightarrow> part_ro list outcome \<times> remote" where
  "getParts_ro root r =
     (case listParts root r of
        (Inr parts, r') \<Rightarrow> (Sent (Reply 200 (Records parts)), r')
      | (Inl err, r') \<Rightarrow> (Unhandled err, r'))"

section \<open>The service-account server\<close>

text \<open>The server of \<open>server.js\<close>; every failure is answered 500 with a fixed text.\<close>

record part_sa =
  name_sa :: "string option"
  imageUrl_sa :: "string option"
  details_sa :: payload

text \<open>\<open>Array.prototype.find\<close> with a predicate that may throw.\<close>

fun find_js :: "('a \<Rightarrow> js_error + bool) \<Rightarrow> 'a list \<Rightarrow> js_error + 'a option" where
  "find_js p [] = Inr None"
| "find_js p (x # xs) =
     (case p x of Inl e \<Rightarrow> Inl e | Inr b \<Rightarrow> if b then Inr (Some x) else find_js p xs)"

definition imagePred :: "dfile \<Rightarrow> js_error + bool" where
  "imagePred f =
     (case mimeType f of
        None \<Rightarrow> Inl (TypeError ''Cannot read properties of undefined (reading 'startsWith')'')
      | Some m \<Rightarrow> Inr (startsWith m ''image/''))"

definition txtPred :: "dfile \<Rightarrow> js_error + bool" where
  "txtPred f =
     (case fname f of
        None \<Rightarrow> Inl (TypeError ''Cannot read properties of undefined (reading 'endsWith')'')
      | Some n \<Rightarrow> Inr (endsWith n ''.txt''))"

definition lift :: "js_error + 'a \<Rightarrow> 'a io" where
  "lift v r = (v, r)"

definition viewUrl_sa :: "string \<Rightarrow> string" where
  "viewUrl_sa i = ''https://drive.google.com/uc?export=view&id='' @ i"

definition childrenQuery_sa :: "string \<Rightarrow> list_params" where
  "childrenQuery_sa i =
     \<lparr>q = [InParents i, NotTrashed], fieldsMask = [FId, FName, FMimeType], pageSize = None\<rparr>"

definition foldersQuery_sa :: "string \<Rightarrow> list_params" where
  "foldersQuery_sa root =
     \<lparr>q = [InParents root, MimeTypeIs folderMime, NotTrashed], fieldsMask = [FId, FName],
      pageSize = None\<rparr>"

definition partOf_sa :: "dfile \<Rightarrow> part_sa io" where
  "partOf_sa folder =
     await (files_list (childrenQuery_sa (fid folder)))
       (\<lambda>files.
          await (lift (find_js imagePred files)) (\<lambda>imageFile.
            await (lift (find_js txtPred files)) (\<lambda>txtFile.
              await (case txtFile of
                       None \<Rightarrow> return (TextData [])
                     | Some t \<Rightarrow> files_get (fid t))
                (\<lambda>dtl.
                   return \<lparr>name_sa = fname folder,
                           imageUrl_sa = map_option (\<lambda>i. viewUrl_sa (fid i)) imageFile,
                           details_sa = dtl\<rparr>))))"

fun eachFolder_sa :: "dfile list \<Rightarrow> part_sa list \<Rightarrow> part_sa list io" where
  "eachFolder_sa [] parts = return parts"
| "eachFolder_sa (folder # folders) parts =
     await (partOf_sa folder) (\<lambda>p. eachFolder_sa folders (parts @ [p]))"

definition collectParts_sa :: "string \<Rightarrow> part_sa list io" where
  "collectParts_sa root =
     await (files_list (foldersQuery_sa root)) (\<lambda>folders. eachFolder_sa folders [])"

definition getParts_sa :: "string \<Rightarrow> remote \<Rightarrow> part_sa list reply \<times> remote" where
  "getParts_sa root r =
     (case collectParts_sa root r of
        (Inr parts, r') \<Rightarrow> (Reply 200 (Records parts), r')
      | (Inl err, r') \<Rightarrow> (Reply 500 (Text ''Error retrieving parts''), r'))"

section \<open>Notions used in the statements\<close>

text \<open>The service accepts the next call unless the script rejects it.\<close>

definition accepts :: "remote \<Rightarrow> bool" where
  "accepts r = (case script r of Some m # _ \<Rightarrow> False | _ \<Rightarrow> True)"

text \<open>
  A stretch of the call log fits a result when every call in it was accepted, except
  that the last one was rejected with the message of the error thrown.
\<close>

fun clean :: "js_error + 'a \<Rightarrow> (request \<times> string option) list \<Rightarrow> bool" where
  "clean (Inr _) tr = (\<forall>c\<in>set tr. snd c = None)"
| "clean (Inl e) tr =
     (tr \<noteq> [] \<and> snd (last tr) = Some (message e) \<and> (\<forall>c\<in>set (butlast tr). snd c = None))"

definition isGet :: "request \<times> string option \<Rightarrow> bool" where
  "isGet c = (case fst c of FilesGet _ \<Rightarrow> True | _ \<Rightarrow> False)"

definition filtersTrash :: "request \<times> string option \<Rightarrow> bool" where
  "filtersTrash c = (case fst c of FilesList p \<Rightarrow> NotTrashed \<in> set (q p) | _ \<Rightarrow> True)"

text \<open>
  What the classification loop of the session server leaves in \<open>detailsFile\<close>, read
  off the listing: among the children that are not images, the last child named like
  details, else the first plain-text child, else none.
\<close>

definition detailsRule :: "dfile list \<Rightarrow> dfile option" where
  "detailsRule files =
     (let others = filter (\<lambda>f. \<not> isImage f) files in
      case filter namedDetails others of
        [] \<Rightarrow> (case filter isPlainText others of [] \<Rightarrow> None | t # _ \<Rightarrow> Some t)
      | n # ns \<Rightarrow> Some (last (n # ns)))"

definition record_of :: "dfile \<Rightarrow> dfile list \<Rightarrow> string \<Rightarrow> part" where
  "record_of f files txt =
     \<lparr>part_id = fid f, part_name = fname f,
      imageUrl = map_option (\<lambda>i. viewUrl (fid i)) (fst (classify files (None, None))),
      details = txt\<rparr>"

text \<open>
  A small catalogue to run the handlers on: \<open>Alternator\<close> with two images and two text
  files, \<open>Gasket\<close> with no children, \<open>Wiper\<close> with an image called \<open>details.png\<close> and
  a text file.
\<close>

definition folder :: "string \<Rightarrow> string \<Rightarrow> entry" where
  "folder i n =
     \<lparr>eid = i, ename = n, emimeType = folderMime, eparents = [''ROOT''], etrashed = False,
      ebody = TextData []\<rparr>"

definition child :: "string \<Rightarrow> string \<Rightarrow> string \<Rightarrow> string \<Rightarrow> string \<Rightarrow> entry" where
  "child p i n m b =
     \<lparr>eid = i, ename = n, emimeType = m, eparents = [p], etrashed = False, ebody = TextData b\<rparr>"

definition garage :: "entry list" where
  "garage =
     [folder ''F1'' ''Alternator'',
      child ''F1'' ''A'' ''a.png'' ''image/png'' ''png-a'',
      child ''F1'' ''B'' ''b.png'' ''image/png'' ''png-b'',
      child ''F1'' ''D'' ''details.txt'' ''text/plain'' ''Fits 2015-2018 sedans'',
      child ''F1'' ''E'' ''notes.txt'' ''text/plain'' ''spare'',
      folder ''F2'' ''Gasket'',
      folder ''F3'' ''Wiper'',
      child ''F3'' ''P'' ''details.png'' ''image/png'' ''png-p'',
      child ''F3'' ''N'' ''notes.txt'' ''text/plain'' ''Left side'']"

definition drive0 :: remote where
  "drive0 = \<lparr>entries = garage, script = [], calls = []\<rparr>"

definition twoImages :: remote where
  "twoImages =
     \<lparr>entries =
        [folder ''F1'' ''Alternator'',
         child ''F1'' ''A'' ''a.png'' ''image/png'' ''png-a'',
         child ''F1'' ''B'' ''b.png'' ''image/png'' ''png-b''],
      script = [], calls = []\<rparr>"

definition detailsPng :: dfile where
  "detailsPng = \<lparr>fid = ''P'', fname = Some ''details.png'', mimeType = Some ''image/png''\<rparr>"

definition notesTxt :: dfile where
  "notesTxt = \<lparr>fid = ''N'', fname = Some ''notes.txt'', mimeType = Some ''text/plain''\<rparr>"

definition gasket :: dfile where
  "gasket = \<lparr>fid = ''F2'', fname = Some ''Gasket'', mimeType = None\<rparr>"

definition notesAndDetails :: remote where
  "notesAndDetails =
     \<lparr>entries =
        [folder ''F1'' ''Alternator'',
         child ''F1'' ''N'' ''notes.txt'' ''text/plain'' ''from notes'',
         child ''F1'' ''X'' ''details.doc'' ''application/msword'' ''from details''],
      script = [], calls = []\<rparr>"

definition emptyDrive :: remote where
  "emptyDrive = \<lparr>entries = [], script = [], calls = []\<rparr>"

section \<open>The remote calls\<close>

lemma serve_cases:
  assumes "serve rq act r = (res, r')"
  shows "script r' = drop 1 (script r) \<and>
     ((\<exists>m. res = Inl (UpstreamError m) \<and> entries r' = entries r \<and>
           calls r' = calls r @ [(rq, Some m)] \<and> (accepts r \<longrightarrow> act (entries r) = Inl m)) \<or>
      (\<exists>x es. res = Inr x \<and> accepts r \<and> act (entries r) = Inr (x, es) \<and> entries r' = es \<and>
          calls r' = calls r @ [(rq, None)]))"
  using assms unfolding serve_def accepts_def
  by (auto simp: Let_def split: list.splits option.splits sum.splits prod.splits)

lemma serve_accepted:
  "accepts r \<Longrightarrow> act (entries r) = Inr (x, es) \<Longrightarrow>
   serve rq act r =
     (Inr x, r\<lparr>script := drop 1 (script r), entries := es, calls := calls r @ [(rq, None)]\<rparr>)"
  unfolding serve_def accepts_def
  by (auto simp: Let_def split: list.splits option.splits sum.splits prod.splits)

lemma files_list_cases:
  assumes "files_list p r = (res, r')"
  shows "script r' = drop 1 (script r) \<and> entries r' = entries r \<and>
     ((\<exists>m. res = Inl (UpstreamError m) \<and> \<not> accepts r \<and>
           calls r' = calls r @ [(FilesList p, Some m)]) \<or>
      (res = Inr (select p (entries r)) \<and> accepts r \<and>
       calls r' = calls r @ [(FilesList p, None)]))"
  using serve_cases[OF assms[unfolded files_list_def]] by auto

lemma accepted_list:
  "accepts r \<Longrightarrow>
   files_list p r =
     (Inr (select p (entries r)),
      r\<lparr>script := drop 1 (script r), calls := calls r @ [(FilesList p, None)]\<rparr>)"
  unfolding files_list_def
  by (subst serve_accepted[where x = "select p (entries r)" and es = "entries r"]) auto

lemma files_get_cases:
  assumes "files_get i r = (res, r')"
  shows "script r' = drop 1 (script r) \<and> entries r' = entries r \<and>
     ((\<exists>m. res = Inl (UpstreamError m) \<and> calls r' = calls r @ [(FilesGet i, Some m)]) \<or>
      (\<exists>e. res = Inr (ebody e) \<and> lookup i (entries r) = Some e \<and> accepts r \<and>
          calls r' = calls r @ [(FilesGet i, None)]))"
  using serve_cases[OF assms[unfolded files_get_def]] by (auto split: option.splits)

lemma trash_keeps_ids:
  "map eid (map (\<lambda>e. if eid e = i then e\<lparr>etrashed := t\<rparr> else e) es) = map eid es"
  by (induction es) auto

lemma files_update_cases:
  assumes "files_update i t r = (res, r')"
  shows "script r' = drop 1 (script r) \<and>
     ((\<exists>m. res = Inl (UpstreamError m) \<and> entries r' = entries r \<and>
           calls r' = calls r @ [(FilesUpdate i t, Some m)]) \<or>
      (res = Inr () \<and> accepts r \<and> lookup i (entries r) \<noteq> None \<and>
       entries r' = map (\<lambda>e. if eid e = i then e\<lparr>etrashed := t\<rparr> else e) (entries r) \<and>
       calls r' = calls r @ [(FilesUpdate i t, None)]))"
  using serve_cases[OF assms[unfolded files_update_def]] by (auto split: option.splits)

lemma await_cases:
  assumes "await m k r = (res, r')"
  shows "(\<exists>e. m r = (Inl e, r') \<and> res = Inl e) \<or> (\<exists>x r1. m r = (Inr x, r1) \<and> k x r1 = (res, r'))"
  using assms unfolding await_def by (auto split: prod.splits sum.splits)

lemma clean_append:
  "\<forall>c\<in>set tr1. snd c = None \<Longrightarrow> clean res tr2 \<Longrightarrow> clean res (tr1 @ tr2)"
  by (cases res) (auto simp: butlast_append)

lemma clean_failure:
  assumes "clean res tr" and "(rq, Some m) \<in> set tr"
  shows "\<exists>e. res = Inl e \<and> message e = m"
proof (cases res)
  case (Inr x)
  with assms show ?thesis by auto
next
  case (Inl e)
  with assms have ne: "tr \<noteq> []" and l: "snd (last tr) = Some (message e)"
    and b: "\<forall>c\<in>set (butlast tr). snd c = None" by auto
  from ne assms(2) have "(rq, Some m) \<in> set (butlast tr @ [last tr])" by simp
  then have "(rq, Some m) \<in> set (butlast tr) \<or> (rq, Some m) = last tr"
    unfolding set_append by auto
  with b have "last tr = (rq, Some m)" by auto
  with l have "message e = m" by simp
  with Inl show ?thesis by simp
qed

lemma select_not_trashed:
  assumes "NotTrashed \<in> set (q p)" and "\<forall>e\<in>set es. eid e = i \<longrightarrow> etrashed e"
  shows "i \<notin> set (map fid (select p es))"
proof
  assume "i \<in> set (map fid (select p es))"
  then obtain d where d: "d \<in> set (select p es)" "fid d = i" by auto
  from d(1) have "d \<in> set (map (project (fieldsMask p)) (filter (\<lambda>e. list_all (matches e) (q p)) es))"
    unfolding select_def by (rule in_set_takeD)
  then obtain e where "e \<in> set es" "list_all (matches e) (q p)" "d = project (fieldsMask p) e"
    by auto
  with d assms show False by (auto simp: list_all_iff project_def)
qed

section \<open>Classification of the children\<close>

lemma classify_image:
  "fst (classify files (i, d)) =
     (case filter isImage files of [] \<Rightarrow> i | x # xs \<Rightarrow> Some (last (x # xs)))"
  by (induction files arbitrary: i d) (auto split: list.splits)

lemma classify_details:
  "snd (classify files (i, d)) =
     (case filter namedDetails (filter (\<lambda>f. \<not> isImage f) files) of
        [] \<Rightarrow> (case d of
                 Some x \<Rightarrow> Some x
               | None \<Rightarrow> (case filter isPlainText (filter (\<lambda>f. \<not> isImage f) files) of
                            [] \<Rightarrow> None | t # _ \<Rightarrow> Some t))
      | n # ns \<Rightarrow> Some (last (n # ns)))"
  by (induction files arbitrary: i d) (auto split: list.splits option.splits)

lemma classify_rule: "snd (classify files (None, None)) = detailsRule files"
  by (simp add: classify_details detailsRule_def split: list.splits)

lemma detailsRule_member:
  "detailsRule files = Some d \<Longrightarrow> d \<in> set (filter (\<lambda>f. \<not> isImage f) files)"
proof -
  assume a: "detailsRule files = Some d"
  let ?others = "filter (\<lambda>f. \<not> isImage f) files"
  show ?thesis
  proof (cases "filter namedDetails ?others")
    case Nil
    with a obtain ts where "filter isPlainText ?others = d # ts"
      by (auto simp: detailsRule_def split: list.splits)
    then have "d \<in> set (filter isPlainText ?others)" by simp
    then show ?thesis by simp
  next
    case (Cons n ns)
    with a have "d = last (filter namedDetails ?others)" by (simp add: detailsRule_def)
    with Cons have "d \<in> set (filter namedDetails ?others)" by (metis last_in_set list.distinct(1))
    then show ?thesis by simp
  qed
qed

text \<open>\<open>find\<close> in the service-account server: the first image in listing order.\<close>

lemma find_js_first:
  "find_js imagePred files = Inr (Some f) \<Longrightarrow>
   \<exists>pre post. files = pre @ f # post \<and> imagePred f = Inr True \<and> (\<forall>g\<in>set pre. imagePred g = Inr False)"
proof (induction files)
  case Nil
  then show ?case by simp
next
  case (Cons x xs)
  show ?case
  proof (cases "imagePred x")
    case (Inl e)
    with Cons.prems show ?thesis by simp
  next
    case (Inr b)
    show ?thesis
    proof (cases b)
      case True
      with Inr Cons.prems have "x = f" by simp
      with Inr True have "x # xs = [] @ f # xs \<and> imagePred f = Inr True \<and> (\<forall>g\<in>set []. imagePred g = Inr False)"
        by simp
      then show ?thesis by blast
    next
      case False
      with Inr Cons.prems have "find_js imagePred xs = Inr (Some f)" by simp
      from Cons.IH[OF this] obtain pre post where
        "xs = pre @ f # post" "imagePred f = Inr True" "\<forall>g\<in>set pre. imagePred g = Inr False" by blast
      with Inr False have "x # xs = (x # pre) @ f # post \<and> imagePred f = Inr True \<and>
          (\<forall>g\<in>set (x # pre). imagePred g = Inr False)" by simp
      then show ?thesis by blast
    qed
  qed
qed

section \<open>One folder, and the loop over the folders\<close>

lemma partOf_cases:
  assumes "partOf f r = (res, r')"
  shows "entries r' = entries r \<and>
    ((\<exists>m. res = Inl (UpstreamError m) \<and> \<not> accepts r \<and>
          calls r' = calls r @ [(FilesList (childrenQuery (fid f)), Some m)]) \<or>
     (accepts r \<and> snd (classify (select (childrenQuery (fid f)) (entries r)) (None, None)) = None \<and>
      res = Inr (record_of f (select (childrenQuery (fid f)) (entries r)) []) \<and>
      calls r' = calls r @ [(FilesList (childrenQuery (fid f)), None)]) \<or>
     (\<exists>d. accepts r \<and>
        snd (classify (select (childrenQuery (fid f)) (entries r)) (None, None)) = Some d \<and>
        ((\<exists>m. res = Inl (UpstreamError m) \<and>
            calls r' =
              calls r @ [(FilesList (childrenQuery (fid f)), None), (FilesGet (fid d), Some m)]) \<or>
         (\<exists>e. lookup (fid d) (entries r) = Some e \<and>
            res = Inr (record_of f (select (childrenQuery (fid f)) (entries r)) (asText (ebody e))) \<and>
            calls r' =
              calls r @ [(FilesList (childrenQuery (fid f)), None), (FilesGet (fid d), None)]))))"
proof -
  from await_cases[OF assms[unfolded partOf_def]]
  show ?thesis
  proof (elim disjE exE conjE)
    fix e assume "files_list (childrenQuery (fid f)) r = (Inl e, r')" "res = Inl e"
    then show ?thesis using files_list_cases[of "childrenQuery (fid f)" r "Inl e" r'] by auto
  next
    fix files r1
    assume l: "files_list (childrenQuery (fid f)) r = (Inr files, r1)"
      and k: "(case classify files (None, None) of
            (imageFile, detailsFile) \<Rightarrow>
              await (readDetails detailsFile) (\<lambda>detailsText.
                return \<lparr>part_id = fid f, part_name = fname f,
                        imageUrl = map_option (\<lambda>i. viewUrl (fid i)) imageFile,
                        details = detailsText\<rparr>)) r1 = (res, r')"
    from files_list_cases[OF l] have
      f: "files = select (childrenQuery (fid f)) (entries r)" and a: "accepts r"
      and e1: "entries r1 = entries r"
      and c1: "calls r1 = calls r @ [(FilesList (childrenQuery (fid f)), None)]"
      by auto
    obtain img det where cl: "classify files (None, None) = (img, det)"
      by (cases "classify files (None, None)")
    show ?thesis
    proof (cases det)
      case None
      with k cl have "res = Inr (record_of f files [])" "r' = r1"
        by (auto simp: readDetails_def await_def return_def record_of_def)
      with None cl f a e1 c1 show ?thesis by auto
    next
      case (Some d)
      from k cl Some have k': "await (await (files_get (fid d)) (\<lambda>txt. return (asText txt)))
           (\<lambda>detailsText. return \<lparr>part_id = fid f, part_name = fname f,
                        imageUrl = map_option (\<lambda>i. viewUrl (fid i)) img,
                        details = detailsText\<rparr>) r1 = (res, r')"
        by (simp add: readDetails_def)
      obtain gres r2 where g: "files_get (fid d) r1 = (gres, r2)" by (cases "files_get (fid d) r1")
      from files_get_cases[OF g] k' g cl Some f a e1 c1 show ?thesis
        by (auto simp: await_def return_def record_of_def)
    qed
  qed
qed

lemma partOf_no_candidate:
  assumes "accepts r"
    and "snd (classify (select (childrenQuery (fid f)) (entries r)) (None, None)) = None"
  shows "partOf f r =
     (Inr (record_of f (select (childrenQuery (fid f)) (entries r)) []),
      r\<lparr>script := drop 1 (script r),
        calls := calls r @ [(FilesList (childrenQuery (fid f)), None)]\<rparr>)"
  using assms(2) unfolding partOf_def await_def accepted_list[OF assms(1)]
  by (auto simp: readDetails_def return_def record_of_def split: prod.splits)

lemma partOf_summary:
  assumes "partOf f r = (res, r')"
  shows "entries r' = entries r \<and>
    (\<exists>tr. calls r' = calls r @ tr \<and> clean res tr \<and> (\<forall>c\<in>set tr. filtersTrash c) \<and>
          length (filter isGet tr) \<le> 1) \<and>
    (\<forall>p. res = Inr p \<longrightarrow> part_id p = fid f \<and> part_name p = fname f)"
  using partOf_cases[OF assms]
  by (elim conjE disjE exE)
     (auto simp: isGet_def filtersTrash_def childrenQuery_def record_of_def)

lemma eachFolder_summary:
  "eachFolder folders parts r = (res, r') \<Longrightarrow>
   entries r' = entries r \<and>
   (\<exists>tr. calls r' = calls r @ tr \<and> clean res tr \<and> (\<forall>c\<in>set tr. filtersTrash c) \<and>
         length (filter isGet tr) \<le> length folders) \<and>
   (\<forall>ps. res = Inr ps \<longrightarrow>
      map part_id ps = map part_id parts @ map fid folders \<and>
      map part_name ps = map part_name parts @ map fname folders)"
proof (induction folders arbitrary: parts r)
  case Nil
  then show ?case by (auto simp: return_def)
next
  case (Cons f folders)
  from await_cases[OF Cons.prems[unfolded eachFolder.simps]]
  show ?case
  proof (elim disjE exE conjE)
    fix e assume p: "partOf f r = (Inl e, r')" and "res = Inl e"
    with partOf_summary[OF p] show ?thesis by auto
  next
    fix p r1
    assume p: "partOf f r = (Inr p, r1)" and k: "eachFolder folders (parts @ [p]) r1 = (res, r')"
    from partOf_summary[OF p] obtain tr1 where
      1: "entries r1 = entries r" "calls r1 = calls r @ tr1" "\<forall>c\<in>set tr1. snd c = None"
         "\<forall>c\<in>set tr1. filtersTrash c" "length (filter isGet tr1) \<le> 1"
         "part_id p = fid f" "part_name p = fname f"
      by auto
    from Cons.IH[OF k] obtain tr2 where
      2: "entries r' = entries r1" "calls r' = calls r1 @ tr2" "clean res tr2"
         "\<forall>c\<in>set tr2. filtersTrash c" "length (filter isGet tr2) \<le> length folders"
         "\<forall>ps. res = Inr ps \<longrightarrow>
            map part_id ps = map part_id (parts @ [p]) @ map fid folders \<and>
            map part_name ps = map part_name (parts @ [p]) @ map fname folders"
      by auto
    have "calls r' = calls r @ (tr1 @ tr2)" using 1 2 by simp
    moreover have "clean res (tr1 @ tr2)" using clean_append 1 2 by blast
    moreover have "\<forall>c\<in>set (tr1 @ tr2). filtersTrash c" using 1 2 by auto
    moreover have "length (filter isGet (tr1 @ tr2)) \<le> length (f # folders)" using 1 2 by simp
    ultimately show ?thesis using 1 2 by auto
  qed
qed

lemma collectParts_summary:
  assumes "collectParts root r = (res, r')"
  shows "entries r' = entries r \<and>
   (\<exists>tr. calls r' = calls r @ tr \<and> clean res tr \<and> (\<forall>c\<in>set tr. filtersTrash c)) \<and>
   (\<forall>ps. res = Inr ps \<longrightarrow>
      map part_id ps = map fid (select (foldersQuery root) (entries r)) \<and>
      map part_name ps = map fname (select (foldersQuery root) (entries r)))"
proof -
  from await_cases[OF assms[unfolded collectParts_def]]
  show ?thesis
  proof (elim disjE exE conjE)
    fix e assume l: "files_list (foldersQuery root) r = (Inl e, r')" and "res = Inl e"
    with files_list_cases[OF l] show ?thesis by (auto simp: filtersTrash_def foldersQuery_def)
  next
    fix folders r1
    assume l: "files_list (foldersQuery root) r = (Inr folders, r1)"
      and k: "eachFolder folders [] r1 = (res, r')"
    from files_list_cases[OF l] have
      1: "entries r1 = entries r" "folders = select (foldersQuery root) (entries r)"
         "calls r1 = calls r @ [(FilesList (foldersQuery root), None)]"
      by auto
    from eachFolder_summary[OF k] obtain tr2 where
      2: "entries r' = entries r1" "calls r' = calls r1 @ tr2" "clean res tr2"
         "\<forall>c\<in>set tr2. filtersTrash c"
         "\<forall>ps. res = Inr ps \<longrightarrow>
            map part_id ps = map fid folders \<and> map part_name ps = map fname folders"
      by auto
    have "calls r' = calls r @ ((FilesList (foldersQuery root), None) # tr2)" using 1 2 by simp
    moreover have "clean res ((FilesList (foldersQuery root), None) # tr2)"
      using clean_append[of "[(FilesList (foldersQuery root), None)]" res tr2] 2 by simp
    moreover have "\<forall>c\<in>set ((FilesList (foldersQuery root), None) # tr2). filtersTrash c"
      using 2 by (auto simp: filtersTrash_def foldersQuery_def)
    ultimately have
      "\<exists>tr. calls r' = calls r @ tr \<and> clean res tr \<and> (\<forall>c\<in>set tr. filtersTrash c)"
      by blast
    then show ?thesis using 1 2 by simp
  qed
qed

lemma handler_parts:
  assumes "fst (getParts root tokens r) = Reply 200 (Records parts)"
  shows "\<exists>r'. collectParts root r = (Inr parts, r')"
proof -
  obtain res r' where c: "collectParts root r = (res, r')" by (cases "collectParts root r")
  with assms have "res = Inr parts"
    by (auto simp: getParts_def ensureAuth_def partsHandler_def split: if_splits sum.splits)
  with c show ?thesis by simp
qed

section \<open>The service-account server: one record per folder, in order\<close>

lemma part_sa_name: "partOf_sa f r = (Inr p, r') \<Longrightarrow> name_sa p = fname f"
  unfolding partOf_sa_def await_def return_def lift_def
  by (auto split: prod.splits sum.splits option.splits)

lemma eachFolder_sa_names:
  "eachFolder_sa folders parts r = (Inr ps, r') \<Longrightarrow>
   map name_sa ps = map name_sa parts @ map fname folders"
proof (induction folders arbitrary: parts r)
  case Nil
  then show ?case by (simp add: return_def)
next
  case (Cons f folders)
  from await_cases[OF Cons.prems[unfolded eachFolder_sa.simps]]
  obtain p r1 where "partOf_sa f r = (Inr p, r1)"
    "eachFolder_sa folders (parts @ [p]) r1 = (Inr ps, r')"
    by auto
  with Cons.IH part_sa_name show ?case by fastforce
qed

lemma collectParts_sa_names:
  assumes "collectParts_sa root r = (Inr ps, r')"
  shows "map name_sa ps = map fname (select (foldersQuery_sa root) (entries r))"
proof -
  from await_cases[OF assms[unfolded collectParts_sa_def]]
  obtain folders r1 where l: "files_list (foldersQuery_sa root) r = (Inr folders, r1)"
    and k: "eachFolder_sa folders [] r1 = (Inr ps, r')" by auto
  from files_list_cases[OF l] have "folders = select (foldersQuery_sa root) (entries r)" by auto
  with eachFolder_sa_names[OF k] show ?thesis by simp
qed

section \<open>The image candidate\<close>

text \<open>
  C1. The claim: of several image children the first in listing order gives the image
  reference. The loop of the session server assigns \<open>imageFile\<close> at every image child
  (lemma \<open>classify_image\<close>: the last one stays), while \<open>find\<close> in the service-account
  server stops at the first (lemma \<open>find_js_first\<close>). Here the session server lists a
  folder with the images \<open>A\<close> and \<open>B\<close>, in this order, and the record refers to \<open>B\<close>.
\<close>

theorem last_image_wins:
  "fst (getParts ''ROOT'' (Some ''token'') twoImages) =
     Reply 200
       (Records
          [\<lparr>part_id = ''F1'', part_name = Some ''Alternator'',
            imageUrl = Some ''https://drive.google.com/uc?id=B'', details = []\<rparr>])"
  by code_simp

section \<open>The details candidate\<close>

text \<open>
  C4. The claim: the details candidate is a child whose name contains \<open>details\<close>,
  whatever its case, and only without such a child the first plain-text child. The
  session server prefers the child named like details (lemma \<open>classify_details\<close>).
  The service-account server takes the first child whose name ends in \<open>.txt\<close>, and
  \<open>listParts\<close> of the read-only server fetches the plain-text children only; neither
  looks for \<open>details\<close> in a name. Here the folder holds \<open>notes.txt\<close> (plain text) and
  then \<open>details.doc\<close>: the session server answers with the text of \<open>details.doc\<close>,
  the two other servers with the text of \<open>notes.txt\<close>.
\<close>

theorem details_named_child_passed_over:
  "fst (getParts ''ROOT'' (Some ''token'') notesAndDetails) =
     Reply 200
       (Records
          [\<lparr>part_id = ''F1'', part_name = Some ''Alternator'', imageUrl = None,
            details = ''from details''\<rparr>]) \<and>
   fst (getParts_sa ''ROOT'' notesAndDetails) =
     Reply 200
       (Records
          [\<lparr>name_sa = Some ''Alternator'', imageUrl_sa = None,
            details_sa = TextData ''from notes''\<rparr>]) \<and>
   fst (getParts_ro ''ROOT'' notesAndDetails) =
     Sent (Reply 200
       (Records
          [\<lparr>name_ro = Some ''Alternator'', image_ro = [],
            details_ro = TextData ''from notes''\<rparr>])) \<and>
   map fst (calls (snd (getParts_sa ''ROOT'' notesAndDetails))) =
     [FilesList (foldersQuery_sa ''ROOT''), FilesList (childrenQuery_sa ''F1''), FilesGet ''N''] \<and>
   map fst (calls (snd (getParts_ro ''ROOT'' notesAndDetails))) =
     [FilesList (foldersQuery_ro ''ROOT''), FilesList (childrenQuery_ro ''F1''), FilesGet ''N'']"
  by code_simp

text \<open>
  C10. A child whose content type starts with \<open>image/\<close> is never the details candidate,
  whatever its name: the image branch comes first for every child.
\<close>

theorem image_never_details:
  "isImage f \<Longrightarrow> snd (classify files (None, None)) \<noteq> Some f"
  using detailsRule_member[of files f] by (auto simp: classify_rule)

theorem image_never_details_witness:
  "isImage detailsPng \<and> namedDetails detailsPng \<and>
   snd (classify [notesTxt, detailsPng] (None, None)) \<noteq> Some detailsPng"
proof -
  have h: "isImage detailsPng" by code_simp
  have n: "namedDetails detailsPng" by code_simp
  from image_never_details[OF h, of "[notesTxt, detailsPng]"] h n show ?thesis by simp
qed

section \<open>A folder without children\<close>

text \<open>
  C6. When the listing of a folder's children is accepted and comes back empty, the
  loop pushes the record of that folder with \<open>imageUrl = null\<close> and \<open>details\<close> the
  empty string, after the one listing call, and goes on with the remaining folders:
  nothing is thrown.
\<close>

theorem empty_folder_record:
  assumes "accepts r" and "select (childrenQuery (fid f)) (entries r) = []"
  shows "eachFolder (f # folders) parts r =
     eachFolder folders
       (parts @ [\<lparr>part_id = fid f, part_name = fname f, imageUrl = None, details = []\<rparr>])
       (r\<lparr>script := drop 1 (script r),
          calls := calls r @ [(FilesList (childrenQuery (fid f)), None)]\<rparr>)"
  using partOf_no_candidate[OF assms(1), of f] assms(2)
  by (simp add: await_def record_of_def)

theorem empty_folder_record_witness:
  "accepts drive0 \<and> select (childrenQuery (fid gasket)) (entries drive0) = [] \<and>
   fst (eachFolder [gasket] [] drive0) =
     Inr [\<lparr>part_id = ''F2'', part_name = Some ''Gasket'', imageUrl = None, details = []\<rparr>]"
proof -
  have h1: "accepts drive0" by code_simp
  have h2: "select (childrenQuery (fid gasket)) (entries drive0) = []" by code_simp
  from empty_folder_record[OF h1 h2, of "[]" "[]"] h1 h2
  show ?thesis by (simp add: return_def gasket_def)
qed

section \<open>The order of the records\<close>

text \<open>
  C8. A successful listing answers with one record per folder of the root listing, in
  the order of that listing: the identifiers and names of the records of the session
  server, and the names of the records of the service-account server, are those of the
  folders the service returned, position by position.
\<close>

theorem order_preserved:
  "(fst (getParts root tokens r) = Reply 200 (Records parts) \<longrightarrow>
      map part_id parts = map fid (select (foldersQuery root) (entries r)) \<and>
      map part_name parts = map fname (select (foldersQuery root) (entries r))) \<and>
   (fst (getParts_sa root r) = Reply 200 (Records parts') \<longrightarrow>
      map name_sa parts' = map fname (select (foldersQuery_sa root) (entries r)))"
proof (intro conjI impI)
  assume a: "fst (getParts root tokens r) = Reply 200 (Records parts)"
  from handler_parts[OF a] obtain r' where "collectParts root r = (Inr parts, r')" ..
  from collectParts_summary[OF this]
  show "map part_id parts = map fid (select (foldersQuery root) (entries r))"
    and "map part_name parts = map fname (select (foldersQuery root) (entries r))" by auto
next
  assume a: "fst (getParts_sa root r) = Reply 200 (Records parts')"
  obtain res r' where c: "collectParts_sa root r = (res, r')" by (cases "collectParts_sa root r")
  with a have "res = Inr parts'"
    by (auto simp: getParts_sa_def split: sum.splits)
  with collectParts_sa_names c
  show "map name_sa parts' = map fname (select (foldersQuery_sa root) (entries r))" by blast
qed

theorem order_preserved_witness:
  "fst (getParts ''ROOT'' (Some ''token'') drive0) =
     Reply 200
       (Records
          [\<lparr>part_id = ''F1'', part_name = Some ''Alternator'',
            imageUrl = Some ''https://drive.google.com/uc?id=B'',
            details = ''Fits 2015-2018 sedans''\<rparr>,
           \<lparr>part_id = ''F2'', part_name = Some ''Gasket'', imageUrl = None, details = []\<rparr>,
           \<lparr>part_id = ''F3'', part_name = Some ''Wiper'',
            imageUrl = Some ''https://drive.google.com/uc?id=P'', details = ''Left side''\<rparr>]) \<and>
   fst (getParts_sa ''ROOT'' drive0) =
     Reply 200
       (Records
          [\<lparr>name_sa = Some ''Alternator'',
            imageUrl_sa = Some ''https://drive.google.com/uc?export=view&id=A'',
            details_sa = TextData ''Fits 2015-2018 sedans''\<rparr>,
           \<lparr>name_sa = Some ''Gasket'', imageUrl_sa = None, details_sa = TextData []\<rparr>,
           \<lparr>name_sa = Some ''Wiper'',
            imageUrl_sa = Some ''https://drive.google.com/uc?export=view&id=P'',
            details_sa = TextData ''Left side''\<rparr>]) \<and>
   map fid (select (foldersQuery ''ROOT'') (entries drive0)) = [''F1'', ''F2'', ''F3''] \<and>
   map fname (select (foldersQuery_sa ''ROOT'') (entries drive0)) =
     [Some ''Alternator'', Some ''Gasket'', Some ''Wiper'']"
proof -
  let ?ps = "[\<lparr>part_id = ''F1'', part_name = Some ''Alternator'',
            imageUrl = Some ''https://drive.google.com/uc?id=B'',
            details = ''Fits 2015-2018 sedans''\<rparr>,
           \<lparr>part_id = ''F2'', part_name = Some ''Gasket'', imageUrl = None, details = []\<rparr>,
           \<lparr>part_id = ''F3'', part_name = Some ''Wiper'',
            imageUrl = Some ''https://drive.google.com/uc?id=P'', details = ''Left side''\<rparr>]"
  let ?qs = "[\<lparr>name_sa = Some ''Alternator'',
            imageUrl_sa = Some ''https://drive.google.com/uc?export=view&id=A'',
            details_sa = TextData ''Fits 2015-2018 sedans''\<rparr>,
           \<lparr>name_sa = Some ''Gasket'', imageUrl_sa = None, details_sa = TextData []\<rparr>,
           \<lparr>name_sa = Some ''Wiper'',
            imageUrl_sa = Some ''https://drive.google.com/uc?export=view&id=P'',
            details_sa = TextData ''Left side''\<rparr>]"
  have 1: "fst (getParts ''ROOT'' (Some ''token'') drive0) = Reply 200 (Records ?ps)"
    by code_simp
  have 2: "fst (getParts_sa ''ROOT'' drive0) = Reply 200 (Records ?qs)"
    by code_simp
  from order_preserved[of "''ROOT''" "Some ''token''" drive0 ?ps ?qs] 1 2
  have 3: "map part_id ?ps = map fid (select (foldersQuery ''ROOT'') (entries drive0))"
    and 4: "map name_sa ?qs = map fname (select (foldersQuery_sa ''ROOT'') (entries drive0))"
    by blast+
  show ?thesis using 1 2 3[symmetric] 4[symmetric] by simp
qed

section \<open>Deleting a part\<close>

text \<open>
  C9. For an authenticated request: without a \<open>folderId\<close> (absent or empty) the answer
  is 400 and the service is not called. Otherwise exactly one call is made, the
  metadata update \<open>trashed: true\<close> on that identifier; no entry leaves the store; when
  the service accepts, the entry is marked trashed and the answer is 200 with
  \<open>{success}\<close>, and when it rejects the store is unchanged and the answer is 500.
\<close>

theorem delete_contract:
  assumes "tokens \<noteq> None"
  shows "(if truthy folderId
          then \<exists>i out.
                 folderId = Some i \<and>
                 calls (snd (postDelete tokens folderId r)) = calls r @ [(FilesUpdate i True, out)] \<and>
                 map eid (entries (snd (postDelete tokens folderId r))) = map eid (entries r) \<and>
                 (case out of
                    None \<Rightarrow>
                      fst (postDelete tokens folderId r) = Reply 200 (Success None) \<and>
                      entries (snd (postDelete tokens folderId r)) =
                        map (\<lambda>e. if eid e = i then e\<lparr>etrashed := True\<rparr> else e) (entries r)
                  | Some m \<Rightarrow>
                      fst (postDelete tokens folderId r) =
                        Reply 500 (Failure ''Failed to delete'' (Some m)) \<and>
                      entries (snd (postDelete tokens folderId r)) = entries r)
          else postDelete tokens folderId r = (Reply 400 (Failure ''folderId required'' None), r))"
proof (cases "truthy folderId")
  case False
  then show ?thesis using assms
    by (auto simp: postDelete_def ensureAuth_def deleteHandler_def truthy_def split: option.splits)
next
  case True
  then obtain i where i: "folderId = Some i" "i \<noteq> []"
    by (auto simp: truthy_def split: option.splits)
  obtain res r' where u: "files_update i True r = (res, r')" by (cases "files_update i True r")
  from i u assms have p: "postDelete tokens (Some i) r =
      (case res of Inr _ \<Rightarrow> Reply 200 (Success None)
       | Inl err \<Rightarrow> Reply 500 (Failure ''Failed to delete'' (Some (message err))), r')"
    by (auto simp: postDelete_def ensureAuth_def deleteHandler_def split: sum.splits)
  from files_update_cases[OF u]
  have "\<exists>out. calls r' = calls r @ [(FilesUpdate i True, out)] \<and>
     map eid (entries r') = map eid (entries r) \<and>
     (case out of
        None \<Rightarrow> res = Inr () \<and>
          entries r' = map (\<lambda>e. if eid e = i then e\<lparr>etrashed := True\<rparr> else e) (entries r)
      | Some m \<Rightarrow> res = Inl (UpstreamError m) \<and> entries r' = entries r)"
    by (auto simp: trash_keeps_ids)
  then obtain out where o: "calls r' = calls r @ [(FilesUpdate i True, out)]"
     "map eid (entries r') = map eid (entries r)"
     "(case out of
        None \<Rightarrow> res = Inr () \<and>
          entries r' = map (\<lambda>e. if eid e = i then e\<lparr>etrashed := True\<rparr> else e) (entries r)
      | Some m \<Rightarrow> res = Inl (UpstreamError m) \<and> entries r' = entries r)"
    by blast
  have "folderId = Some i \<and>
        calls (snd (postDelete tokens folderId r)) = calls r @ [(FilesUpdate i True, out)] \<and>
        map eid (entries (snd (postDelete tokens folderId r))) = map eid (entries r) \<and>
        (case out of
           None \<Rightarrow>
             fst (postDelete tokens folderId r) = Reply 200 (Success None) \<and>
             entries (snd (postDelete tokens folderId r)) =
               map (\<lambda>e. if eid e = i then e\<lparr>etrashed := True\<rparr> else e) (entries r)
         | Some m \<Rightarrow>
             fst (postDelete tokens folderId r) =
               Reply 500 (Failure ''Failed to delete'' (Some m)) \<and>
             entries (snd (postDelete tokens folderId r)) = entries r)"
    using i o by (cases out) (simp_all add: p)
  with True show ?thesis by auto
qed

theorem delete_contract_witness:
  "Some ''token'' \<noteq> (None :: string option) \<and> truthy (Some ''F2'') \<and> \<not> truthy None \<and>
   fst (postDelete (Some ''token'') (Some ''F2'') drive0) = Reply 200 (Success None) \<and>
   calls (snd (postDelete (Some ''token'') (Some ''F2'') drive0)) = [(FilesUpdate ''F2'' True, None)] \<and>
   map eid (entries (snd (postDelete (Some ''token'') (Some ''F2'') drive0))) = map eid garage \<and>
   fst (postDelete (Some ''token'') (Some ''F2'') (drive0\<lparr>script := [Some ''Forbidden'']\<rparr>)) =
     Reply 500 (Failure ''Failed to delete'' (Some ''Forbidden'')) \<and>
   postDelete (Some ''token'') None drive0 = (Reply 400 (Failure ''folderId required'' None), drive0)"
proof -
  have t: "Some ''token'' \<noteq> (None :: string option)" by simp
  have 1: "fst (postDelete (Some ''token'') (Some ''F2'') drive0) = Reply 200 (Success None)"
    by code_simp
  have 2: "calls (snd (postDelete (Some ''token'') (Some ''F2'') drive0)) =
      [(FilesUpdate ''F2'' True, None)]"
    by code_simp
  have 3: "fst (postDelete (Some ''token'') (Some ''F2'') (drive0\<lparr>script := [Some ''Forbidden'']\<rparr>)) =
     Reply 500 (Failure ''Failed to delete'' (Some ''Forbidden''))"
    by code_simp
  have 4: "entries drive0 = garage" by (simp add: drive0_def)
  from delete_contract[OF t, of "Some ''F2''" drive0] delete_contract[OF t, of None drive0] 1 2 3 4
  show ?thesis by (simp add: truthy_def)
qed

section \<open>Creating a part\<close>

text \<open>
  C3, as the claim states it, fails for a name of white space only: the test
  \<open>!partName\<close> lets the one-blank name through, the folder is created and the answer
  is 200.
\<close>

theorem blank_name_accepted:
  "fst (postUpload ''ROOT'' (Some ''token'') (Some '' '') None None emptyDrive) =
     Reply 200 (Success (Some ''f'')) \<and>
   map fst (calls (snd (postUpload ''ROOT'' (Some ''token'') (Some '' '') None None emptyDrive))) =
     [FilesCreate
        \<lparr>cname = Some '' '', cmimeType = ''application/vnd.google-apps.folder'',
         cparents = [''ROOT''], cmedia = None\<rparr>] \<and>
   map ename (entries (snd (postUpload ''ROOT'' (Some ''token'') (Some '' '') None None emptyDrive))) =
     ['' '']"
  by code_simp

text \<open>
  C3, amended. For an authenticated request whose part name is missing or the empty
  string, the answer is 400 and nothing happens at the service: no call is made, no
  folder and no file is created, the store is as before.
\<close>

theorem empty_name_rejected:
  assumes "tokens \<noteq> None" and "partName = None \<or> partName = Some []"
  shows "postUpload root tokens partName dtl file r =
     (Reply 400 (Failure ''partName required'' None), r)"
  using assms by (auto simp: postUpload_def ensureAuth_def uploadHandler_def truthy_def)

theorem empty_name_rejected_witness:
  "Some ''token'' \<noteq> (None :: string option) \<and>
   postUpload ''ROOT'' (Some ''token'') (Some []) (Some ''Fits 2015-2018 sedans'')
     (Some \<lparr>originalname = ''a.png'', mimetype = Some ''image/png'', buffer = ''png-a''\<rparr>) drive0 =
     (Reply 400 (Failure ''partName required'' None), drive0) \<and>
   postUpload ''ROOT'' (Some ''token'') None None None drive0 =
     (Reply 400 (Failure ''partName required'' None), drive0)"
proof -
  have t: "Some ''token'' \<noteq> (None :: string option)" by simp
  from empty_name_rejected[OF t, of "Some []" "''ROOT''" "Some ''Fits 2015-2018 sedans''"
      "Some \<lparr>originalname = ''a.png'', mimetype = Some ''image/png'', buffer = ''png-a''\<rparr>" drive0]
    empty_name_rejected[OF t, of None "''ROOT''" None None drive0]
  show ?thesis by simp
qed

section \<open>The session server: failures, fetches and trashed folders\<close>

text \<open>
  Whatever call the service rejects during a listing, the session server answers 500
  with the message of that rejection, and no records.
\<close>

lemma session_failure_500:
  assumes "partsHandler root r = (reply, r')"
    and "(rq, Some m) \<in> set (drop (length (calls r)) (calls r'))"
  shows "reply = Reply 500 (Failure ''Failed to list parts'' (Some m))"
proof -
  obtain res r1 where c: "collectParts root r = (res, r1)" by (cases "collectParts root r")
  with assms(1) have r1: "r1 = r'" by (auto simp: partsHandler_def split: sum.splits)
  from collectParts_summary[OF c] r1 obtain tr where
    tr: "calls r' = calls r @ tr" "clean res tr" by auto
  with assms(2) have "(rq, Some m) \<in> set tr" by simp
  with tr(2) clean_failure[of res tr rq m] obtain e where "res = Inl e" "message e = m" by blast
  with c assms(1) show ?thesis by (simp add: partsHandler_def)
qed

text \<open>And an answer 200 means that every call of the request was accepted.\<close>

lemma session_success_clean:
  assumes "partsHandler root r = (Reply 200 b, r')"
  shows "\<forall>c\<in>set (drop (length (calls r)) (calls r')). snd c = None"
proof -
  obtain res r1 where c: "collectParts root r = (res, r1)" by (cases "collectParts root r")
  with assms have r1: "r1 = r'" and "\<exists>ps. res = Inr ps"
    by (auto simp: partsHandler_def split: sum.splits)
  with collectParts_summary[OF c] obtain tr where
    "calls r' = calls r @ tr" "\<forall>c\<in>set tr. snd c = None" by auto
  then show ?thesis by simp
qed

text \<open>The session server fetches content once for a folder with a candidate, else never.\<close>

lemma session_single_fetch:
  assumes "partOf f r = (res, r')"
  shows "length (filter isGet (drop (length (calls r)) (calls r'))) =
     (if accepts r \<and> detailsRule (select (childrenQuery (fid f)) (entries r)) \<noteq> None
      then 1 else 0)"
  using partOf_cases[OF assms]
  by (elim conjE disjE exE) (simp_all add: isGet_def classify_rule[symmetric])

text \<open>Both listings of the session server ask for entries that are not trashed.\<close>

lemma session_queries_filter_trash:
  "\<forall>c\<in>set (drop (length (calls r)) (calls (snd (partsHandler root r)))). filtersTrash c"
proof -
  obtain res r1 where c: "collectParts root r = (res, r1)" by (cases "collectParts root r")
  then have "snd (partsHandler root r) = r1" by (auto simp: partsHandler_def split: sum.splits)
  with collectParts_summary[OF c] obtain tr where
    "calls (snd (partsHandler root r)) = calls r @ tr" "\<forall>c\<in>set tr. filtersTrash c" by auto
  then show ?thesis by simp
qed

text \<open>So a folder that is trashed in the store is in no answer of the session server.\<close>

lemma trashed_never_listed:
  assumes "fst (getParts root tokens r) = Reply 200 (Records parts)"
    and "\<forall>e\<in>set (entries r). eid e = i \<longrightarrow> etrashed e"
  shows "i \<notin> set (map part_id parts)"
proof -
  from handler_parts[OF assms(1)] obtain r' where "collectParts root r = (Inr parts, r')" ..
  from collectParts_summary[OF this]
  have e: "map part_id parts = map fid (select (foldersQuery root) (entries r))" by simp
  have nt: "NotTrashed \<in> set (q (foldersQuery root))" by (simp add: foldersQuery_def)
  from select_not_trashed[OF nt assms(2)] show ?thesis unfolding e .
qed

lemma delete_accepted:
  assumes "postDelete tokens (Some i) r = (Reply 200 b, r1)"
  shows "entries r1 = map (\<lambda>e. if eid e = i then e\<lparr>etrashed := True\<rparr> else e) (entries r)"
proof -
  have t: "tokens \<noteq> None"
  proof
    assume "tokens = None"
    then have "postDelete tokens (Some i) r = (Reply 401 (Failure ''Not authenticated'' None), r)"
      by (simp add: postDelete_def ensureAuth_def)
    with assms show False by simp
  qed
  have i: "i \<noteq> []"
  proof
    assume "i = []"
    with t have "postDelete tokens (Some i) r = (Reply 400 (Failure ''folderId required'' None), r)"
      by (simp add: postDelete_def ensureAuth_def deleteHandler_def)
    with assms show False by simp
  qed
  obtain res r' where u: "files_update i True r = (res, r')" by (cases "files_update i True r")
  from t i u have p: "postDelete tokens (Some i) r =
      (case res of Inr _ \<Rightarrow> Reply 200 (Success None)
       | Inl err \<Rightarrow> Reply 500 (Failure ''Failed to delete'' (Some (message err))), r')"
    by (simp add: postDelete_def ensureAuth_def deleteHandler_def split: sum.splits)
  from p assms have r: "r' = r1" by simp
  from p assms have "\<exists>x. res = Inr x" by (cases res) simp_all
  with files_update_cases[OF u] r show ?thesis by auto
qed

lemma trash_marks:
  "\<forall>e\<in>set (map (\<lambda>e. if eid e = i then e\<lparr>etrashed := True\<rparr> else e) es). eid e = i \<longrightarrow> etrashed e"
proof (intro ballI impI)
  let ?f = "\<lambda>e. if eid e = i then e\<lparr>etrashed := True\<rparr> else e"
  fix e assume m: "e \<in> set (map ?f es)" and i: "eid e = i"
  from m have "e \<in> ?f ` set es" by (simp only: set_map)
  then obtain x where x: "e = ?f x" by (rule imageE)
  show "etrashed e"
  proof (cases "eid x = i")
    case True
    with x show ?thesis by simp
  next
    case False
    with x have "e = x" by simp
    with i False show ?thesis by simp
  qed
qed

lemma deleted_then_unlisted:
  assumes "postDelete tokens (Some i) r = (Reply 200 b, r1)"
    and "fst (getParts root tokens' r1) = Reply 200 (Records parts)"
  shows "i \<notin> set (map part_id parts)"
proof -
  have "\<forall>e\<in>set (entries r1). eid e = i \<longrightarrow> etrashed e"
    unfolding delete_accepted[OF assms(1)] by (rule trash_marks)
  with trashed_never_listed[OF assms(2)] show ?thesis .
qed

section \<open>The read-only server: trashed folders, fetches and failures\<close>

text \<open>
  C2. The claim: a trashed folder is in no later listing, because both listing queries
  ask for entries that are not trashed. The session server does so (lemmas
  \<open>session_queries_filter_trash\<close>, \<open>deleted_then_unlisted\<close>); the queries of
  \<open>listParts\<close> in the read-only server carry no such condition. Here \<open>Gasket\<close> is
  trashed through the delete handler, and \<open>listParts\<close> still returns its record.
\<close>

theorem trashed_folder_still_listed:
  "fst (postDelete (Some ''token'') (Some ''F2'') drive0) = Reply 200 (Success None) \<and>
   NotTrashed \<notin> set (q (foldersQuery_ro ''ROOT'')) \<and>
   NotTrashed \<notin> set (q (childrenQuery_ro ''F2'')) \<and>
   fst (getParts_ro ''ROOT'' (snd (postDelete (Some ''token'') (Some ''F2'') drive0))) =
     Sent (Reply 200
       (Records
          [\<lparr>name_ro = Some ''Alternator'', image_ro = ''https://drive.google.com/uc?id=B'',
            details_ro = TextData ''spare''\<rparr>,
           \<lparr>name_ro = Some ''Gasket'', image_ro = [], details_ro = TextData []\<rparr>,
           \<lparr>name_ro = Some ''Wiper'', image_ro = ''https://drive.google.com/uc?id=P'',
            details_ro = TextData ''Left side''\<rparr>]))"
  by code_simp

text \<open>
  C5. The claim: at most one content fetch per folder. The session server keeps to it
  (lemma \<open>session_single_fetch\<close>); \<open>listParts\<close> in the read-only server fetches inside
  the loop over the children, once for every plain-text child. Here \<open>Alternator\<close> has
  the text files \<open>D\<close> and \<open>E\<close>, and both are fetched.
\<close>

theorem fetch_per_text_file:
  "map fst (calls (snd (listParts ''ROOT'' drive0))) =
     [FilesList (foldersQuery_ro ''ROOT''),
      FilesList (childrenQuery_ro ''F1''), FilesGet ''D'', FilesGet ''E'',
      FilesList (childrenQuery_ro ''F2''),
      FilesList (childrenQuery_ro ''F3''), FilesGet ''N'']"
  by code_simp

text \<open>
  C7. The claim: a failing remote call makes the whole request fail with one answer
  500 that carries the upstream message. The session server does so (lemma
  \<open>session_failure_500\<close>); the handler of the read-only server has no \<open>catch\<close>. Here
  the listing of the first folder's children is rejected: no answer is sent, the
  rejection leaves the handler.
\<close>

theorem rejection_unhandled:
  "fst (getParts_ro ''ROOT'' (drive0\<lparr>script := [None, Some ''Rate limit exceeded'']\<rparr>)) =
     Unhandled (UpstreamError ''Rate limit exceeded'')"
  by code_simp

end
